theory Spec2Isabelle
  imports Main "HOL-Library.Char_ord" "HOL-Library.List_Lexorder"
begin

section \<open>Tokenising with positions: \<open>parse_idx\<close>\<close>

text \<open>
  \<^verbatim>\<open>class StringIdx\<close> (jarnsaxa.py, lines 92-96) holds a token, the index of its first
  character in the input and the index one past its last character. The indices that
  \<^verbatim>\<open>parse_idx\<close> produces are sums of lengths, hence natural numbers. A Python string is a
  sequence of characters; the code only compares them, so the character type is left
  open.
\<close>

record 'c StringIdx =
  str :: "'c list"
  idx :: nat
  idx_end :: nat

text \<open>
  \<^verbatim>\<open>itertools.groupby(iterable, key)\<close>: the maximal runs of consecutive elements with the
  same key, each with its key, in order.
\<close>

function groupby :: "('a \<Rightarrow> 'k) \<Rightarrow> 'a list \<Rightarrow> ('k \<times> 'a list) list" where
  "groupby key [] = []"
| "groupby key (x # xs) =
     (key x, x # takeWhile (\<lambda>y. key y = key x) xs)
       # groupby key (dropWhile (\<lambda>y. key y = key x) xs)"
  by pat_completeness auto
termination
  by (relation "measure (\<lambda>(key, xs). length xs)")
     (auto simp: length_dropWhile_le less_Suc_eq_le)

text \<open>
  The generator \<^verbatim>\<open>parse_two_idx\<close> (lines 107-113): \<^verbatim>\<open>p\<close> is the start of the current
  group, \<^verbatim>\<open>q = p + sum(1 for i in g)\<close> its end; a group whose key is false (no delimiter)
  is yielded as \<^verbatim>\<open>(p, q)\<close>, and the next group starts at \<^verbatim>\<open>q\<close>.
\<close>

fun parse_two_idx_from :: "nat \<Rightarrow> (bool \<times> 'c list) list \<Rightarrow> (nat \<times> nat) list" where
  "parse_two_idx_from p [] = []"
| "parse_two_idx_from p ((k, g) # gs) =
     (let q = p + length g
      in (if \<not> k then [(p, q)] else []) @ parse_two_idx_from q gs)"

definition parse_two_idx :: "'c list \<Rightarrow> 'c list \<Rightarrow> (nat \<times> nat) list" where
  "parse_two_idx input delims =
     parse_two_idx_from 0 (groupby (\<lambda>x. x \<in> set delims) input)"

text \<open>The slice \<^verbatim>\<open>s[a:b]\<close> for indices that are not negative.\<close>

definition slice :: "'c list \<Rightarrow> nat \<Rightarrow> nat \<Rightarrow> 'c list" where
  "slice s a b = take (b - a) (drop a s)"

text \<open>
  \<^verbatim>\<open>parse_idx\<close> (lines 104-120). The parameter \<^verbatim>\<open>keep_delims\<close> is accepted and never
  read.
\<close>

definition parse_idx :: "'c list \<Rightarrow> 'c list \<Rightarrow> 'c list \<Rightarrow> 'c StringIdx list" where
  "parse_idx input delims keep_delims =
     map (\<lambda>s. \<lparr>str = slice input (fst s) (snd s), idx = fst s, idx_end = snd s\<rparr>)
       (parse_two_idx input delims)"

section \<open>Python values and the container\<close>

text \<open>
  An exception is kept as the text that \<^verbatim>\<open>f"{e}"\<close> prints for it; the code never looks
  further into an exception than that.
\<close>

type_synonym exn = string

text \<open>
  The values the two converters meet. A \<^verbatim>\<open>dict\<close> is a list of pairs in insertion order,
  with keys that differ (\<open>wf_dict\<close> below). The code tells \<^verbatim>\<open>dict\<close>, \<^verbatim>\<open>list\<close>,
  \<^verbatim>\<open>numpy.ndarray\<close> and \<^verbatim>\<open>bytes\<close> apart by \<^verbatim>\<open>type(v) == ...\<close> and treats every
  other value as opaque. \<open>PNpBytes\<close> is a \<^verbatim>\<open>numpy.bytes_\<close>, the item of an array of
  fixed-width byte strings: a subclass of \<^verbatim>\<open>bytes\<close>, so it has the method
  \<^verbatim>\<open>decode\<close>, but \<^verbatim>\<open>type(v) == bytes\<close> is false for it. The other values are text,
  an integer, or an object of some other class (given by the name of its class), which
  has no method \<^verbatim>\<open>decode\<close>. The elements of a \<open>PArray\<close> are the items of the array as
  indexing and iteration give them.
\<close>

datatype pyval =
    PDict "(string \<times> pyval) list"
  | PList "pyval list"
  | PArray "pyval list"
  | PBytes "char list"
  | PNpBytes "char list"
  | PStr string
  | PInt int
  | PObj string

type_synonym pydict = "(string \<times> pyval) list"

fun is_dict :: "pyval \<Rightarrow> bool" where
  "is_dict (PDict d) = True"
| "is_dict v = False"

text \<open>\<^verbatim>\<open>type(v) == bytes\<close>: the exact class, not a subclass.\<close>

fun is_bytes :: "pyval \<Rightarrow> bool" where
  "is_bytes (PBytes b) = True"
| "is_bytes v = False"

text \<open>The class that \<^verbatim>\<open>type(v)\<close> is, by its name.\<close>

fun type_name :: "pyval \<Rightarrow> string" where
  "type_name (PDict d) = ''dict''"
| "type_name (PList xs) = ''list''"
| "type_name (PArray xs) = ''numpy.ndarray''"
| "type_name (PBytes b) = ''bytes''"
| "type_name (PNpBytes b) = ''numpy.bytes_''"
| "type_name (PStr s) = ''str''"
| "type_name (PInt i) = ''int''"
| "type_name (PObj c) = c"

text \<open>\<^verbatim>\<open>d[k] = v\<close> on a \<^verbatim>\<open>dict\<close>: an existing key keeps its place, a new key goes last.\<close>

fun dict_set :: "(string \<times> 'v) list \<Rightarrow> string \<Rightarrow> 'v \<Rightarrow> (string \<times> 'v) list" where
  "dict_set [] k v = [(k, v)]"
| "dict_set ((k', v') # d) k v = (if k' = k then (k, v) # d else (k', v') # dict_set d k v)"

text \<open>The keys of a \<^verbatim>\<open>dict\<close> differ, at every level of nesting.\<close>

fun wf_dict :: "pydict \<Rightarrow> bool" where
  "wf_dict [] = True"
| "wf_dict ((k, PDict d) # rest) = (k \<notin> fst ` set rest \<and> wf_dict d \<and> wf_dict rest)"
| "wf_dict ((k, v) # rest) = (k \<notin> fst ` set rest \<and> wf_dict rest)"

text \<open>
  The container: a group holds named entries, each a group or a dataset, in the order in
  which \<^verbatim>\<open>keys()\<close> lists them. A dataset holds its value as \<^verbatim>\<open>fh[k][()]\<close> returns it.
  A file is given by the entries of its root group, and a handle on a group of the file
  (the \<^verbatim>\<open>fh\<close> of \<^verbatim>\<open>write_level\<close>) by the names that lead to the group from the root.
\<close>

datatype hnode =
    HGroup "(string \<times> hnode) list"
  | HDataset pyval

type_synonym hgroup = "(string \<times> hnode) list"

type_synonym hpath = "string list"

text \<open>A file is a container or text; the file system maps a path to the file there.\<close>

datatype fsfile = HdfFile hgroup | TextFile string

type_synonym fsys = "string \<Rightarrow> fsfile option"

text \<open>
  A new entry \<open>k\<close> in the group that the handle \<open>fh\<close> points to. The name must be free in
  that group. The container lists the entries of a group by name, whatever the order of
  their creation, so the entry takes its place among the names.
\<close>

fun add_entry :: "hgroup \<Rightarrow> hpath \<Rightarrow> string \<Rightarrow> hnode \<Rightarrow> exn + hgroup" where
  "add_entry g [] k n =
     (if k \<in> fst ` set g then Inl ''Unable to create link (name already exists)''
      else Inr (insort_key fst (k, n) g))"
| "add_entry g (c # fh) k n =
     (case map_of g c of
        Some (HGroup sub) \<Rightarrow>
          (case add_entry sub fh k n of
             Inl e \<Rightarrow> Inl e
           | Inr sub' \<Rightarrow> Inr (dict_set g c (HGroup sub')))
      | _ \<Rightarrow> Inl ''Unable to open group'')"

text \<open>
  What the code takes from outside the repository (h5py, numpy, the \<^verbatim>\<open>json\<close> module, the
  operating system) is a parameter of the model:
  \<^item> \<open>open_err p\<close>: the exception that opening the path \<open>p\<close> for writing raises, if any;
  \<^item> \<open>group_err k\<close>: the exception that \<^verbatim>\<open>create_group(k)\<close> raises for the name, if any;
  \<^item> \<open>dataset_err k v\<close>: the exception that \<^verbatim>\<open>create_dataset(k, data=v)\<close> raises, if any
    (the adapter rejects the value);
  \<^item> \<open>stored v\<close>: the value that reading the dataset gives back for \<^verbatim>\<open>data=v\<close>;
  \<^item> \<open>plain_name k\<close>: the name \<open>k\<close> is the name of one entry. For h5py a name with
    \<^verbatim>\<open>/\<close> is not: it is a path, relative to the group or, with \<^verbatim>\<open>/\<close> first, to the
    root of the file, and the groups on the way are created. What the adapter does with a
    name that is not plain is left to it: \<open>odd_group root fh k\<close> and
    \<open>odd_dataset root fh k raw\<close> give the file after \<^verbatim>\<open>create_group(k)\<close> and
    \<^verbatim>\<open>create_dataset(k, ...)\<close> on the handle \<open>fh\<close>, or the exception, and
    \<open>odd_handle fh k\<close> is the handle \<^verbatim>\<open>fh[k]\<close>;
  \<^item> \<open>np_array xs\<close>: the items of \<^verbatim>\<open>np.array(xs)\<close> for a \<^verbatim>\<open>list\<close>, or the exception;
  \<^item> \<open>bytes_decode b\<close>: \<^verbatim>\<open>b.decode()\<close>, the text or the exception;
  \<^item> \<open>json_dumps v n\<close>: \<^verbatim>\<open>json.dumps(v, indent=n)\<close>, the text or the exception.
\<close>

record env =
  open_err :: "string \<Rightarrow> exn option"
  group_err :: "string \<Rightarrow> exn option"
  dataset_err :: "string \<Rightarrow> pyval \<Rightarrow> exn option"
  stored :: "pyval \<Rightarrow> pyval"
  plain_name :: "string \<Rightarrow> bool"
  odd_group :: "hgroup \<Rightarrow> hpath \<Rightarrow> string \<Rightarrow> exn + hgroup"
  odd_dataset :: "hgroup \<Rightarrow> hpath \<Rightarrow> string \<Rightarrow> pyval \<Rightarrow> exn + hgroup"
  odd_handle :: "hpath \<Rightarrow> string \<Rightarrow> hpath"
  np_array :: "pyval list \<Rightarrow> exn + pyval list"
  bytes_decode :: "char list \<Rightarrow> exn + string"
  json_dumps :: "pyval \<Rightarrow> nat \<Rightarrow> exn + string"

text \<open>
  \<^verbatim>\<open>fh.create_group(k)\<close> and \<^verbatim>\<open>fh.create_dataset(k, data=v)\<close> on the file \<open>root\<close>:
  both raise when the adapter refuses, and when the name is already taken in the group;
  otherwise the file has the new entry. \<^verbatim>\<open>fh[k]\<close> is the handle on the entry.
\<close>

definition create_group :: "env \<Rightarrow> hgroup \<Rightarrow> hpath \<Rightarrow> string \<Rightarrow> exn + hgroup" where
  "create_group E root fh k =
     (case group_err E k of
        Some e \<Rightarrow> Inl e
      | None \<Rightarrow>
          if plain_name E k then add_entry root fh k (HGroup [])
          else odd_group E root fh k)"

definition create_dataset :: "env \<Rightarrow> hgroup \<Rightarrow> hpath \<Rightarrow> string \<Rightarrow> pyval \<Rightarrow> exn + hgroup" where
  "create_dataset E root fh k v =
     (case dataset_err E k v of
        Some e \<Rightarrow> Inl e
      | None \<Rightarrow>
          if plain_name E k then add_entry root fh k (HDataset (stored E v))
          else odd_dataset E root fh k (stored E v))"

definition sub_handle :: "env \<Rightarrow> hpath \<Rightarrow> string \<Rightarrow> hpath" where
  "sub_handle E fh k = (if plain_name E k then fh @ [k] else odd_handle E fh k)"

text \<open>The lines the two converters print, by their format strings.\<close>

datatype msg =
    FailedDataset string string exn
      \<comment> \<open>\<^verbatim>\<open>Failed to write dataset '{k}' with value of type {type(v)}. ({e})\<close>\<close>
  | PrintedTree pydict
      \<comment> \<open>\<^verbatim>\<open>print(root_data)\<close>\<close>
  | WroteFile
      \<comment> \<open>\<^verbatim>\<open>Wrote file in {time.time()-t0} sec.\<close>\<close>
  | FailedHdf string
      \<comment> \<open>\<^verbatim>\<open>Failed to write HDF file! ({exception_str})\<close>\<close>
  | FailedJson exn
      \<comment> \<open>\<^verbatim>\<open>Failed to write JSON backup: ({e}).\<close>\<close>
  | FailedRead exn
      \<comment> \<open>\<^verbatim>\<open>Failed to read HDF file! ({e})\<close>\<close>

section \<open>Writing: \<open>dict_to_hdf\<close>\<close>

text \<open>
  \<^verbatim>\<open>write_level(fh, level_data, show_detail=False)\<close> (lines 131-157). The file \<open>root\<close>
  is passed in and returned as written, next to the result (\<open>Inl\<close> an exception that
  leaves the function, \<open>Inr\<close> the returned flag) and the lines printed; \<open>fh\<close> is the
  handle on the group being written.

  For a \<^verbatim>\<open>dict\<close> value the code creates the group and calls
  \<^verbatim>\<open>write_level(fh[k], v)\<close>: \<^verbatim>\<open>show_detail\<close> is not passed and takes its default
  \<^verbatim>\<open>False\<close>; the flag the call returns is dropped, and the loop goes on with the next
  key. An exception of the call is caught nowhere in \<^verbatim>\<open>write_level\<close>. For any other
  value, an exception of \<^verbatim>\<open>create_dataset\<close> is caught: the line is printed under
  \<^verbatim>\<open>show_detail\<close> and \<^verbatim>\<open>False\<close> returned.
\<close>

fun write_level ::
  "env \<Rightarrow> hgroup \<Rightarrow> hpath \<Rightarrow> pydict \<Rightarrow> bool \<Rightarrow> (exn + bool) \<times> hgroup \<times> msg list" where
  "write_level E root fh [] show_detail = (Inr True, root, [])"
| "write_level E root fh ((k, PDict d) # rest) show_detail =
     (case create_group E root fh k of
        Inl e \<Rightarrow> (Inl e, root, [])
      | Inr root1 \<Rightarrow>
          (case write_level E root1 (sub_handle E fh k) d False of
             (Inl e, root2, out1) \<Rightarrow> (Inl e, root2, out1)
           | (Inr b, root2, out1) \<Rightarrow>
               (case write_level E root2 fh rest show_detail of
                  (r, root3, out2) \<Rightarrow> (r, root3, out1 @ out2))))"
| "write_level E root fh ((k, v) # rest) show_detail =
     (case create_dataset E root fh k v of
        Inl e \<Rightarrow> (Inr False, root, if show_detail then [FailedDataset k (type_name v) e] else [])
      | Inr root1 \<Rightarrow> write_level E root1 fh rest show_detail)"

text \<open>
  \<^verbatim>\<open>save_file[:-3] + ".json"\<close> (line 191): the path without its last three characters
  (the empty string when it has at most three), then \<^verbatim>\<open>.json\<close>.
\<close>

definition json_path :: "string \<Rightarrow> string" where
  "json_path save_file = take (length save_file - 3) save_file @ ''.json''"

text \<open>
  The fallback (lines 194-199): \<^verbatim>\<open>open(save_file_json, "w")\<close> creates the file, empty;
  then \<^verbatim>\<open>json.dumps(root_data, indent=4)\<close> is computed and written. An exception of
  either is caught: the line is printed and \<^verbatim>\<open>False\<close> returned; otherwise control
  reaches the final \<^verbatim>\<open>return True\<close>.
\<close>

definition write_json_backup :: "env \<Rightarrow> fsys \<Rightarrow> pydict \<Rightarrow> string \<Rightarrow> bool \<times> fsys \<times> msg list" where
  "write_json_backup E fs root_data save_file =
     (let save_file_json = json_path save_file in
      case open_err E save_file_json of
        Some e \<Rightarrow> (False, fs, [FailedJson e])
      | None \<Rightarrow>
          (case json_dumps E (PDict root_data) 4 of
             Inl e \<Rightarrow> (False, fs(save_file_json \<mapsto> TextFile []), [FailedJson e])
           | Inr s \<Rightarrow> (True, fs(save_file_json \<mapsto> TextFile s), [])))"

text \<open>
  \<^verbatim>\<open>dict_to_hdf(root_data, save_file, use_json_backup=False, show_detail=False)\<close> (lines
  122-201). The result is \<open>Inl\<close> an exception that reaches the caller or \<open>Inr\<close> the
  returned flag, with the file system afterwards and the lines printed.

  \<^verbatim>\<open>h5py.File(save_file, 'w')\<close> stands outside every \<^verbatim>\<open>try\<close>: when it raises, the
  exception reaches the caller. Otherwise the file is created (replacing what was there)
  and holds, when the \<^verbatim>\<open>with\<close> block is left, whatever was written. In the block,
  \<^verbatim>\<open>write_level\<close> returning \<^verbatim>\<open>False\<close> and an exception of it both clear
  \<^verbatim>\<open>hdf_successful\<close>; the exception also prints \<^verbatim>\<open>root_data\<close>.
\<close>

definition dict_to_hdf ::
  "env \<Rightarrow> fsys \<Rightarrow> pydict \<Rightarrow> string \<Rightarrow> bool \<Rightarrow> bool \<Rightarrow> (exn + bool) \<times> fsys \<times> msg list" where
  "dict_to_hdf E fs root_data save_file use_json_backup show_detail =
     (case open_err E save_file of
        Some e \<Rightarrow> (Inl e, fs, [])
      | None \<Rightarrow>
          (case write_level E [] [] root_data show_detail of
             (r, fh, out1) \<Rightarrow>
               (let fs1 = fs(save_file \<mapsto> HdfFile fh);
                    (hdf_successful, exception_str, out2) =
                      (case r of
                         Inr True \<Rightarrow> (True, [], [])
                       | Inr False \<Rightarrow> (False, ''Set show_detail to true for details'', [])
                       | Inl e \<Rightarrow> (False, e, [PrintedTree root_data]))
                in if hdf_successful then (Inr True, fs1, out1 @ out2 @ [WroteFile])
                   else if use_json_backup then
                     (case write_json_backup E fs1 root_data save_file of
                        (ok, fs2, out3) \<Rightarrow>
                          (if ok then (Inr True, fs2, out1 @ out2 @ [FailedHdf exception_str] @ out3)
                           else (Inr False, fs2, out1 @ out2 @ [FailedHdf exception_str] @ out3)))
                   else (Inr True, fs1, out1 @ out2 @ [FailedHdf exception_str]))))"

section \<open>Reading: \<open>hdf_to_dict\<close>\<close>

text \<open>
  \<^verbatim>\<open>val.decode()\<close> on an element of a sequence: \<^verbatim>\<open>bytes\<close>, and a
  \<^verbatim>\<open>numpy.bytes_\<close> as a subclass of it, are decoded; a value of another type has no
  such method and the call raises \<^verbatim>\<open>AttributeError\<close>.
\<close>

fun decode_val :: "env \<Rightarrow> pyval \<Rightarrow> exn + pyval" where
  "decode_val E (PBytes b) = (case bytes_decode E b of Inl e \<Rightarrow> Inl e | Inr s \<Rightarrow> Inr (PStr s))"
| "decode_val E (PNpBytes b) = (case bytes_decode E b of Inl e \<Rightarrow> Inl e | Inr s \<Rightarrow> Inr (PStr s))"
| "decode_val E v = Inl ''AttributeError: no attribute decode''"

text \<open>
  The loop of lines 231-232 replaces the elements one after the other; the first
  exception ends it.
\<close>

fun decode_all :: "env \<Rightarrow> pyval list \<Rightarrow> exn + pyval list" where
  "decode_all E [] = Inr []"
| "decode_all E (x # xs) =
     (case decode_val E x of
        Inl e \<Rightarrow> Inl e
      | Inr y \<Rightarrow> (case decode_all E xs of Inl e \<Rightarrow> Inl e | Inr ys \<Rightarrow> Inr (y # ys)))"

text \<open>
  What \<^verbatim>\<open>read_level\<close> does with the value of one dataset (lines 218-235). First the
  conversion (lines 222-228): under \<^verbatim>\<open>to_lists\<close> an \<^verbatim>\<open>ndarray\<close> becomes the
  \<^verbatim>\<open>list\<close> of its items; without it a \<^verbatim>\<open>list\<close> becomes \<^verbatim>\<open>np.array\<close> of it, whose
  items are numpy's; \<^verbatim>\<open>is_list_type\<close> is set in these two cases only. Then the
  decoding (lines 230-235): the loop over the elements when \<^verbatim>\<open>is_list_type\<close> is set
  and the first element is of the class \<^verbatim>\<open>bytes\<close> itself; otherwise, under
  \<^verbatim>\<open>decode_strs\<close>, of a value of the class \<^verbatim>\<open>bytes\<close> itself.
\<close>

fun convert_seq :: "env \<Rightarrow> bool \<Rightarrow> pyval \<Rightarrow> exn + pyval \<times> bool" where
  "convert_seq E to_lists (PArray xs) =
     (if to_lists then Inr (PList xs, True) else Inr (PArray xs, False))"
| "convert_seq E to_lists (PList xs) =
     (if \<not> to_lists then
        (case np_array E xs of Inl e \<Rightarrow> Inl e | Inr ys \<Rightarrow> Inr (PArray ys, True))
      else Inr (PList xs, False))"
| "convert_seq E to_lists v = Inr (v, False)"

fun seq_elems :: "pyval \<Rightarrow> pyval list" where
  "seq_elems (PList xs) = xs"
| "seq_elems (PArray xs) = xs"
| "seq_elems v = []"

fun with_elems :: "pyval \<Rightarrow> pyval list \<Rightarrow> pyval" where
  "with_elems (PList xs) ys = PList ys"
| "with_elems (PArray xs) ys = PArray ys"
| "with_elems v ys = v"

definition read_dataset :: "env \<Rightarrow> bool \<Rightarrow> bool \<Rightarrow> pyval \<Rightarrow> exn + pyval" where
  "read_dataset E to_lists decode_strs raw =
     (case convert_seq E to_lists raw of
        Inl e \<Rightarrow> Inl e
      | Inr (v, is_list_type) \<Rightarrow>
          if is_list_type \<and> length (seq_elems v) > 0 \<and> is_bytes (hd (seq_elems v)) then
            (case decode_all E (seq_elems v) of
               Inl e \<Rightarrow> Inl e
             | Inr ys \<Rightarrow> Inr (with_elems v ys))
          else if decode_strs \<and> is_bytes v then decode_val E v
          else Inr v)"

text \<open>
  \<^verbatim>\<open>read_level(fh)\<close> (lines 206-237), with \<^verbatim>\<open>out_data\<close> as it grows: a group is read by
  the recursive call, a dataset as above; an exception leaves the function.
\<close>

fun read_level_from :: "env \<Rightarrow> bool \<Rightarrow> bool \<Rightarrow> hgroup \<Rightarrow> pydict \<Rightarrow> exn + pydict" where
  "read_level_from E to_lists decode_strs [] out_data = Inr out_data"
| "read_level_from E to_lists decode_strs ((k, HGroup g) # rest) out_data =
     (case read_level_from E to_lists decode_strs g [] of
        Inl e \<Rightarrow> Inl e
      | Inr d \<Rightarrow> read_level_from E to_lists decode_strs rest (dict_set out_data k (PDict d)))"
| "read_level_from E to_lists decode_strs ((k, HDataset raw) # rest) out_data =
     (case read_dataset E to_lists decode_strs raw of
        Inl e \<Rightarrow> Inl e
      | Inr v \<Rightarrow> read_level_from E to_lists decode_strs rest (dict_set out_data k v))"

definition read_level :: "env \<Rightarrow> bool \<Rightarrow> bool \<Rightarrow> hgroup \<Rightarrow> exn + pydict" where
  "read_level E to_lists decode_strs fh = read_level_from E to_lists decode_strs fh []"

text \<open>
  \<^verbatim>\<open>hdf_to_dict(filename, to_lists=True, decode_strs=True)\<close> (lines 203-249). The result is
  \<open>Inl\<close> an exception that reaches the caller, or \<open>Inr\<close> the returned value: \<open>Some\<close> the
  \<^verbatim>\<open>dict\<close>, or \<open>None\<close> for Python's \<^verbatim>\<open>None\<close>.

  \<^verbatim>\<open>h5py.File(filename, 'r')\<close> stands outside the \<^verbatim>\<open>try\<close>; it raises when there is no
  file at the path and when the file there is not a container.
\<close>

definition hdf_to_dict ::
  "env \<Rightarrow> fsys \<Rightarrow> string \<Rightarrow> bool \<Rightarrow> bool \<Rightarrow> (exn + pydict option) \<times> msg list" where
  "hdf_to_dict E fs filename to_lists decode_strs =
     (case fs filename of
        Some (HdfFile fh) \<Rightarrow>
          (case read_level E to_lists decode_strs fh of
             Inl e \<Rightarrow> (Inr None, [FailedRead e])
           | Inr root_data \<Rightarrow> (Inr (Some root_data), []))
      | _ \<Rightarrow> (Inl ''Unable to open file'', []))"

section \<open>A sample environment\<close>

text \<open>
  An adapter to evaluate the converters with, on the inputs of the examples below.
  It rejects an object of another class and an integer outside the range of 64 bits,
  alone or in a sequence: numpy holds both as objects, for which the container has no
  type. It gives a \<^verbatim>\<open>list\<close> back as an array, text in it as \<^verbatim>\<open>bytes\<close> objects
  (strings of variable length) and bytes in it as \<^verbatim>\<open>numpy.bytes_\<close> (strings of
  fixed width), and text back as bytes. Every path can be opened and every name is
  accepted. Bytes decode to the text of the same characters, but for the byte
  \<^verbatim>\<open>0xFF\<close>, which stands in no UTF-8 text: it cannot be decoded.
\<close>

fun unstorable :: "pyval \<Rightarrow> bool" where
  "unstorable (PObj c) = True"
| "unstorable (PInt i) = (i < - 9223372036854775808 \<or> 18446744073709551616 \<le> i)"
| "unstorable v = False"

fun sample_dataset_err :: "string \<Rightarrow> pyval \<Rightarrow> exn option" where
  "sample_dataset_err k (PList xs) =
     (if list_ex unstorable xs then Some ''Object dtype has no native HDF5 equivalent''
      else None)"
| "sample_dataset_err k (PArray xs) =
     (if list_ex unstorable xs then Some ''Object dtype has no native HDF5 equivalent''
      else None)"
| "sample_dataset_err k v =
     (if unstorable v then Some ''Object dtype has no native HDF5 equivalent'' else None)"

fun sample_item :: "pyval \<Rightarrow> pyval" where
  "sample_item (PStr s) = PBytes s"
| "sample_item (PBytes b) = PNpBytes b"
| "sample_item v = v"

fun sample_stored :: "pyval \<Rightarrow> pyval" where
  "sample_stored (PList xs) = PArray (map sample_item xs)"
| "sample_stored (PStr s) = PBytes s"
| "sample_stored v = v"

text \<open>
  A name is plain when it is not empty, holds no \<^verbatim>\<open>/\<close> and is not \<^verbatim>\<open>.\<close>. Any other
  name is taken as a path: its parts between the \<^verbatim>\<open>/\<close>, from the root of the file
  when it starts with \<^verbatim>\<open>/\<close> and from the group of the handle otherwise. The groups
  on the way are created when they do not exist.
\<close>

definition sample_plain :: "string \<Rightarrow> bool" where
  "sample_plain k = (k \<noteq> [] \<and> CHR ''/'' \<notin> set k \<and> k \<noteq> ''.'')"

definition split_name :: "string \<Rightarrow> string list" where
  "split_name k =
     filter (\<lambda>part. part \<noteq> [] \<and> part \<noteq> ''.'')
       (foldr (\<lambda>c acc. if c = CHR ''/'' then [] # acc else (c # hd acc) # tl acc) k [[]])"

definition sample_path :: "hpath \<Rightarrow> string \<Rightarrow> hpath" where
  "sample_path fh k = (if k \<noteq> [] \<and> hd k = CHR ''/'' then [] else fh) @ split_name k"

fun insert_path :: "hgroup \<Rightarrow> hpath \<Rightarrow> hnode \<Rightarrow> exn + hgroup" where
  "insert_path g [] n = Inl ''Unable to create link (no name)''"
| "insert_path g [k] n =
     (if k \<in> fst ` set g then Inl ''Unable to create link (name already exists)''
      else Inr (insort_key fst (k, n) g))"
| "insert_path g (c # p) n =
     (case map_of g c of
        None \<Rightarrow>
          (case insert_path [] p n of
             Inl e \<Rightarrow> Inl e
           | Inr sub \<Rightarrow> Inr (insort_key fst (c, HGroup sub) g))
      | Some (HGroup sub) \<Rightarrow>
          (case insert_path sub p n of
             Inl e \<Rightarrow> Inl e
           | Inr sub' \<Rightarrow> Inr (dict_set g c (HGroup sub')))
      | Some (HDataset v) \<Rightarrow> Inl ''Unable to create link (not a group)'')"

text \<open>
  \<^verbatim>\<open>np.array\<close> of a list gives an array of fixed-width byte strings for bytes: its
  items are \<^verbatim>\<open>numpy.bytes_\<close>.
\<close>

fun np_item :: "pyval \<Rightarrow> pyval" where
  "np_item (PBytes b) = PNpBytes b"
| "np_item v = v"

text \<open>
  \<^verbatim>\<open>json.dumps\<close> raises on what JSON cannot hold (bytes, arrays and other objects); the
  text it returns otherwise is not modelled beyond its indentation.
\<close>

fun json_ok :: "pyval \<Rightarrow> bool" where
  "json_ok (PDict d) = list_all (\<lambda>kv. json_ok (snd kv)) d"
| "json_ok (PList xs) = list_all json_ok xs"
| "json_ok (PStr s) = True"
| "json_ok (PInt i) = True"
| "json_ok v = False"

definition sample_env :: env where
  "sample_env =
     \<lparr>open_err = (\<lambda>p. None),
      group_err = (\<lambda>k. None),
      dataset_err = sample_dataset_err,
      stored = sample_stored,
      plain_name = sample_plain,
      odd_group = (\<lambda>root fh k. insert_path root (sample_path fh k) (HGroup [])),
      odd_dataset = (\<lambda>root fh k raw. insert_path root (sample_path fh k) (HDataset raw)),
      odd_handle = sample_path,
      np_array = (\<lambda>xs. Inr (map np_item xs)),
      bytes_decode = (\<lambda>b. if CHR 0xFF \<in> set b then Inl ''UnicodeDecodeError: invalid start byte''
                           else Inr b),
      json_dumps = (\<lambda>v n. if json_ok v then Inr (replicate n CHR '' '' @ ''...'')
                           else Inl ''Object is not JSON serializable'')\<rparr>"

section \<open>The datasets of a file and the leaves of a tree\<close>

text \<open>The names in a group differ, at every level of nesting.\<close>

fun wf_group :: "hgroup \<Rightarrow> bool" where
  "wf_group [] = True"
| "wf_group ((k, HGroup g) # rest) = (k \<notin> fst ` set rest \<and> wf_group g \<and> wf_group rest)"
| "wf_group ((k, HDataset v) # rest) = (k \<notin> fst ` set rest \<and> wf_group rest)"

text \<open>Every dataset of a group, with the names that lead to it.\<close>

fun datasets :: "hgroup \<Rightarrow> (hpath \<times> pyval) list" where
  "datasets [] = []"
| "datasets ((k, HGroup g) # rest) = map (\<lambda>pv. (k # fst pv, snd pv)) (datasets g) @ datasets rest"
| "datasets ((k, HDataset v) # rest) = ([k], v) # datasets rest"

text \<open>Every leaf of a tree, with the keys that lead to it.\<close>

fun leaves :: "pydict \<Rightarrow> (string list \<times> pyval) list" where
  "leaves [] = []"
| "leaves ((k, PDict d) # rest) = map (\<lambda>pv. (k # fst pv, snd pv)) (leaves d) @ leaves rest"
| "leaves ((k, v) # rest) = ([k], v) # leaves rest"

text \<open>
  What \<^verbatim>\<open>read_level\<close> computes for a group, without the dictionary that is filled
  on the way: the entries one after the other, or the first exception.
\<close>

fun read_tree :: "env \<Rightarrow> bool \<Rightarrow> bool \<Rightarrow> hgroup \<Rightarrow> exn + pydict" where
  "read_tree E to_lists decode_strs [] = Inr []"
| "read_tree E to_lists decode_strs ((k, HGroup g) # rest) =
     (case read_tree E to_lists decode_strs g of
        Inl e \<Rightarrow> Inl e
      | Inr d \<Rightarrow>
          (case read_tree E to_lists decode_strs rest of
             Inl e \<Rightarrow> Inl e
           | Inr rest' \<Rightarrow> Inr ((k, PDict d) # rest')))"
| "read_tree E to_lists decode_strs ((k, HDataset raw) # rest) =
     (case read_dataset E to_lists decode_strs raw of
        Inl e \<Rightarrow> Inl e
      | Inr v \<Rightarrow>
          (case read_tree E to_lists decode_strs rest of
             Inl e \<Rightarrow> Inl e
           | Inr rest' \<Rightarrow> Inr ((k, v) # rest')))"

text \<open>
  The sibling path as the specification words it: the same base name, the extension
  replaced with \<^verbatim>\<open>.json\<close>.
\<close>

definition spec_json_sibling :: "string \<Rightarrow> string" where
  "spec_json_sibling save_file =
     (if CHR ''.'' \<in> set save_file
      then rev (dropWhile (\<lambda>c. c \<noteq> CHR ''.'') (rev save_file)) @ ''json''
      else save_file @ ''.json'')"

section \<open>The round trip, as a specification\<close>



text \<open>
  The tree with its keys in the order of their names, at every level: the keys are put in
  their places one after the other. It holds the same values under the same keys, and a
  comparison of two \<^verbatim>\<open>dict\<close>s does not look at the order of the keys.
\<close>

fun sorted_into :: "pydict \<Rightarrow> pydict \<Rightarrow> pydict" where
  "sorted_into [] acc = acc"
| "sorted_into ((k, PDict d) # rest) acc =
     sorted_into rest (insort_key fst (k, PDict (sorted_into d [])) acc)"
| "sorted_into ((k, v) # rest) acc = sorted_into rest (insort_key fst (k, v) acc)"

definition by_name :: "pydict \<Rightarrow> pydict" where
  "by_name t = sorted_into t []"





section \<open>Groups of a file, by their handles\<close>




section \<open>Properties of the tokeniser\<close>

lemma groupby_sections:
  "input = pre @ xs \<Longrightarrow>
   (\<forall>s \<in> set (parse_two_idx_from (length pre) (groupby f xs)).
       length pre \<le> fst s \<and> fst s < snd s \<and> snd s \<le> length input \<and>
       (\<forall>n. fst s \<le> n \<and> n < snd s \<longrightarrow> \<not> f (input ! n)))
   \<and> sorted_wrt (\<lambda>s t. snd s < fst t) (parse_two_idx_from (length pre) (groupby f xs))
   \<and> (\<forall>n. length pre \<le> n \<and> n < length input \<longrightarrow>
         (\<not> f (input ! n) \<longleftrightarrow>
          (\<exists>s \<in> set (parse_two_idx_from (length pre) (groupby f xs)). fst s \<le> n \<and> n < snd s)))"
proof (induction f xs arbitrary: pre rule: groupby.induct)
  case (1 key)
  then show ?case by auto
next
  case (2 key x xs)
  define tw where "tw = takeWhile (\<lambda>y. key y = key x) xs"
  define dw where "dw = dropWhile (\<lambda>y. key y = key x) xs"
  define g where "g = x # tw"
  define q where "q = length pre + length g"
  define secs' where "secs' = parse_two_idx_from q (groupby key dw)"
  have xs: "xs = tw @ dw" by (simp add: tw_def dw_def)
  have inp: "input = (pre @ g) @ dw" using 2(2) xs by (simp add: g_def)
  have lenq: "length (pre @ g) = q" by (simp add: q_def)
  have g_key: "\<forall>y \<in> set g. key y = key x"
    by (auto simp: g_def tw_def dest: set_takeWhileD)
  have in_g: "key (input ! n) = key x" if "length pre \<le> n" "n < q" for n
  proof -
    have "input ! n = g ! (n - length pre)"
      using that by (auto simp: inp nth_append q_def)
    moreover have "n - length pre < length g" using that by (simp add: q_def)
    ultimately show ?thesis using g_key by (metis nth_mem)
  qed
  have dw_hd: "key (input ! q) \<noteq> key x" if "q < length input"
  proof -
    have ne: "dw \<noteq> []" using that inp lenq by auto
    have "input ! q = hd dw" using ne inp lenq by (metis hd_conv_nth nth_append_length_plus add.right_neutral)
    moreover have "key (hd dw) \<noteq> key x" using ne hd_dropWhile[of "\<lambda>y. key y = key x" xs] by (simp add: dw_def)
    ultimately show ?thesis by simp
  qed
  have IH: "(\<forall>s \<in> set secs'. q \<le> fst s \<and> fst s < snd s \<and> snd s \<le> length input \<and>
       (\<forall>n. fst s \<le> n \<and> n < snd s \<longrightarrow> \<not> key (input ! n)))
     \<and> sorted_wrt (\<lambda>s t. snd s < fst t) secs'
     \<and> (\<forall>n. q \<le> n \<and> n < length input \<longrightarrow>
         (\<not> key (input ! n) \<longleftrightarrow> (\<exists>s \<in> set secs'. fst s \<le> n \<and> n < snd s)))"
    using 2(1)[of "pre @ g"] inp lenq unfolding dw_def secs'_def by simp
  have IH1: "\<forall>s \<in> set secs'. q \<le> fst s \<and> fst s < snd s \<and> snd s \<le> length input \<and>
       (\<forall>n. fst s \<le> n \<and> n < snd s \<longrightarrow> \<not> key (input ! n))" using IH by blast
  have IH2: "sorted_wrt (\<lambda>s t. snd s < fst t) secs'" using IH by blast
  have IH3: "\<forall>n. q \<le> n \<and> n < length input \<longrightarrow>
         (\<not> key (input ! n) \<longleftrightarrow> (\<exists>s \<in> set secs'. fst s \<le> n \<and> n < snd s))" using IH by blast
  have secs: "parse_two_idx_from (length pre) (groupby key (x # xs)) =
      (if \<not> key x then [(length pre, q)] else []) @ secs'"
    by (simp add: Let_def q_def g_def tw_def dw_def secs'_def)
  have gap: "q < fst s" if "s \<in> set secs'" "\<not> key x" for s
  proof (rule ccontr)
    assume "\<not> q < fst s"
    with IH1 that have eq: "fst s = q" and lt: "q < length input" and nk: "\<not> key (input ! q)"
      by (force)+
    from dw_hd[OF lt] that(2) nk show False by simp
  qed
  have qle: "q \<le> length input" using inp lenq by (metis length_append le_add1)
  have pq: "length pre < q" by (simp add: q_def g_def)
  have P1: "\<forall>s \<in> set ((if \<not> key x then [(length pre, q)] else []) @ secs').
       length pre \<le> fst s \<and> fst s < snd s \<and> snd s \<le> length input \<and>
       (\<forall>n. fst s \<le> n \<and> n < snd s \<longrightarrow> \<not> key (input ! n))"
    using IH1 in_g qle pq by (auto split: if_splits)
  have P2: "sorted_wrt (\<lambda>s t. snd s < fst t) ((if \<not> key x then [(length pre, q)] else []) @ secs')"
    using IH2 gap by (auto simp: sorted_wrt_append)
  have P3: "\<forall>n. length pre \<le> n \<and> n < length input \<longrightarrow>
         (\<not> key (input ! n) \<longleftrightarrow>
          (\<exists>s \<in> set ((if \<not> key x then [(length pre, q)] else []) @ secs'). fst s \<le> n \<and> n < snd s))"
  proof (intro allI impI)
    fix n assume n: "length pre \<le> n \<and> n < length input"
    show "\<not> key (input ! n) \<longleftrightarrow>
          (\<exists>s \<in> set ((if \<not> key x then [(length pre, q)] else []) @ secs'). fst s \<le> n \<and> n < snd s)"
    proof (cases "n < q")
      case True
      then have k: "key (input ! n) = key x" using in_g n by simp
      have no: "\<not> (\<exists>s \<in> set secs'. fst s \<le> n \<and> n < snd s)" using IH1 True by force
      show ?thesis using k no True n by auto
    next
      case False
      then have "\<not> key (input ! n) \<longleftrightarrow> (\<exists>s \<in> set secs'. fst s \<le> n \<and> n < snd s)"
        using IH3 n by simp
      then show ?thesis using False by auto
    qed
  qed
  show ?case unfolding secs using P1 P2 P3 by blast
qed

lemma sorted_wrt_distinct_cases:
  "sorted_wrt P xs \<Longrightarrow> x \<in> set xs \<Longrightarrow> y \<in> set xs \<Longrightarrow> x = y \<or> P x y \<or> P y x"
  by (induction xs) auto

lemma parse_two_idx_props:
  "(\<forall>s \<in> set (parse_two_idx input delims).
       fst s < snd s \<and> snd s \<le> length input \<and>
       (\<forall>n. fst s \<le> n \<and> n < snd s \<longrightarrow> input ! n \<notin> set delims))
   \<and> sorted_wrt (\<lambda>s t. snd s < fst t) (parse_two_idx input delims)
   \<and> (\<forall>n. n < length input \<longrightarrow>
         (input ! n \<notin> set delims \<longleftrightarrow>
          (\<exists>s \<in> set (parse_two_idx input delims). fst s \<le> n \<and> n < snd s)))"
  using groupby_sections[of input "[]" input "\<lambda>x. x \<in> set delims"]
  unfolding parse_two_idx_def by simp

lemma parse_two_idx_maximal:
  assumes s: "s \<in> set (parse_two_idx input delims)"
  shows "(fst s = 0 \<or> input ! (fst s - 1) \<in> set delims) \<and>
         (snd s = length input \<or> input ! snd s \<in> set delims)"
proof -
  let ?secs = "parse_two_idx input delims"
  from parse_two_idx_props[of input delims]
  have in_range: "\<forall>s \<in> set ?secs. fst s < snd s \<and> snd s \<le> length input"
    and srt: "sorted_wrt (\<lambda>s t. snd s < fst t) ?secs"
    and cov: "\<forall>n. n < length input \<longrightarrow>
         (input ! n \<notin> set delims \<longleftrightarrow> (\<exists>s \<in> set ?secs. fst s \<le> n \<and> n < snd s))"
    by blast+
  have none: "\<not> (\<exists>t \<in> set ?secs. fst t \<le> n \<and> n < snd t)"
    if "n + 1 = fst s \<or> n = snd s" for n
  proof
    assume "\<exists>t \<in> set ?secs. fst t \<le> n \<and> n < snd t"
    then obtain t where t: "t \<in> set ?secs" "fst t \<le> n" "n < snd t" by blast
    from sorted_wrt_distinct_cases[OF srt s t(1)]
    consider "s = t" | "snd s < fst t" | "snd t < fst s" by blast
    then show False using that t in_range s by cases force+
  qed
  have lo: "fst s = 0 \<or> input ! (fst s - 1) \<in> set delims"
  proof (cases "fst s")
    case 0 then show ?thesis by simp
  next
    case (Suc m)
    then have "m < length input" using in_range s by force
    moreover have "\<not> (\<exists>t \<in> set ?secs. fst t \<le> m \<and> m < snd t)" using none[of m] Suc by simp
    ultimately show ?thesis using cov Suc by auto
  qed
  have hi: "snd s = length input \<or> input ! snd s \<in> set delims"
  proof (cases "snd s = length input")
    case True then show ?thesis by simp
  next
    case False
    then have "snd s < length input" using in_range s by force
    moreover have "\<not> (\<exists>t \<in> set ?secs. fst t \<le> snd s \<and> snd s < snd t)" using none[of "snd s"] by simp
    ultimately show ?thesis using cov by auto
  qed
  from lo hi show ?thesis ..
qed

lemma slice_no_delims:
  assumes "a < b" "b \<le> length s" "\<forall>n. a \<le> n \<and> n < b \<longrightarrow> s ! n \<notin> D"
  shows "slice s a b \<noteq> [] \<and> set (slice s a b) \<inter> D = {}"
proof -
  have len: "length (slice s a b) = b - a" using assms by (simp add: slice_def)
  have nth: "slice s a b ! i = s ! (a + i)" if "i < b - a" for i
    using that assms by (simp add: slice_def)
  have "x \<notin> D" if "x \<in> set (slice s a b)" for x
  proof -
    from that obtain i where "i < b - a" "x = slice s a b ! i"
      by (metis in_set_conv_nth len)
    then show ?thesis using nth assms(3) by simp
  qed
  moreover have "slice s a b \<noteq> []" using len assms(1) by auto
  ultimately show ?thesis by auto
qed

text \<open>
  C10. Every token that \<^verbatim>\<open>parse_idx\<close> returns is the slice of the input between its two
  indices, is not empty and holds no delimiter; its indices lie inside the input and the
  token is a whole run (the character before it and the character after it, when there is
  one, are delimiters). The tokens come in strictly increasing order of their start
  indices and do not overlap, and a position of the input holds a non-delimiter exactly
  when some token covers it.
\<close>

theorem parse_idx_tokens:
  "(\<forall>t \<in> set (parse_idx input delims keep_delims).
       slice input (idx t) (idx_end t) = str t \<and> str t \<noteq> [] \<and>
       set (str t) \<inter> set delims = {} \<and>
       idx t < idx_end t \<and> idx_end t \<le> length input \<and>
       (idx t = 0 \<or> input ! (idx t - 1) \<in> set delims) \<and>
       (idx_end t = length input \<or> input ! idx_end t \<in> set delims))
   \<and> sorted_wrt (\<lambda>s t. idx s < idx t \<and> idx_end s < idx t)
        (parse_idx input delims keep_delims)
   \<and> (\<forall>n. n < length input \<longrightarrow>
         (input ! n \<notin> set delims \<longleftrightarrow>
          (\<exists>t \<in> set (parse_idx input delims keep_delims). idx t \<le> n \<and> n < idx_end t)))"
proof -
  let ?secs = "parse_two_idx input delims"
  from parse_two_idx_props[of input delims]
  have in_range: "\<forall>s \<in> set ?secs. fst s < snd s \<and> snd s \<le> length input \<and>
       (\<forall>n. fst s \<le> n \<and> n < snd s \<longrightarrow> input ! n \<notin> set delims)"
    and srt: "sorted_wrt (\<lambda>s t. snd s < fst t) ?secs"
    and cov: "\<forall>n. n < length input \<longrightarrow>
         (input ! n \<notin> set delims \<longleftrightarrow> (\<exists>s \<in> set ?secs. fst s \<le> n \<and> n < snd s))"
    by blast+
  have A: "\<forall>t \<in> set (parse_idx input delims keep_delims).
       slice input (idx t) (idx_end t) = str t \<and> str t \<noteq> [] \<and>
       set (str t) \<inter> set delims = {} \<and>
       idx t < idx_end t \<and> idx_end t \<le> length input \<and>
       (idx t = 0 \<or> input ! (idx t - 1) \<in> set delims) \<and>
       (idx_end t = length input \<or> input ! idx_end t \<in> set delims)"
  proof
    fix t assume "t \<in> set (parse_idx input delims keep_delims)"
    then obtain s where s: "s \<in> set ?secs"
      and t: "t = \<lparr>str = slice input (fst s) (snd s), idx = fst s, idx_end = snd s\<rparr>"
      by (auto simp: parse_idx_def)
    from in_range s have r: "fst s < snd s" "snd s \<le> length input"
      "\<forall>n. fst s \<le> n \<and> n < snd s \<longrightarrow> input ! n \<notin> set delims" by blast+
    from slice_no_delims[OF r] parse_two_idx_maximal[OF s] r
    show "slice input (idx t) (idx_end t) = str t \<and> str t \<noteq> [] \<and>
       set (str t) \<inter> set delims = {} \<and>
       idx t < idx_end t \<and> idx_end t \<le> length input \<and>
       (idx t = 0 \<or> input ! (idx t - 1) \<in> set delims) \<and>
       (idx_end t = length input \<or> input ! idx_end t \<in> set delims)"
      by (simp add: t)
  qed
  have "sorted_wrt (\<lambda>s t. fst s < fst t \<and> snd s < fst t) ?secs"
    using in_range by (intro sorted_wrt_mono_rel[OF _ srt]) force
  then have B: "sorted_wrt (\<lambda>s t. idx s < idx t \<and> idx_end s < idx t)
        (parse_idx input delims keep_delims)"
    by (simp add: parse_idx_def sorted_wrt_map)
  have C: "\<forall>n. n < length input \<longrightarrow>
         (input ! n \<notin> set delims \<longleftrightarrow>
          (\<exists>t \<in> set (parse_idx input delims keep_delims). idx t \<le> n \<and> n < idx_end t))"
    using cov by (simp add: parse_idx_def)
  from A B C show ?thesis by blast
qed

theorem parse_idx_tokens_witness:
  "parse_idx ''  ab cd,e '' '' ,'' '''' =
     [\<lparr>str = ''ab'', idx = 2, idx_end = 4\<rparr>,
      \<lparr>str = ''cd'', idx = 5, idx_end = 7\<rparr>,
      \<lparr>str = ''e'', idx = 8, idx_end = 9\<rparr>]
   \<and> sorted_wrt (\<lambda>s t. idx s < idx t \<and> idx_end s < idx t)
        (parse_idx ''  ab cd,e '' '' ,'' '''')"
proof -
  have "sorted_wrt (\<lambda>s t. idx s < idx t \<and> idx_end s < idx t)
        (parse_idx ''  ab cd,e '' '' ,'' '''')"
    using parse_idx_tokens [of "''  ab cd,e ''" "'' ,''" "''''"] by blast
  moreover have "parse_idx ''  ab cd,e '' '' ,'' '''' =
     [\<lparr>str = ''ab'', idx = 2, idx_end = 4\<rparr>,
      \<lparr>str = ''cd'', idx = 5, idx_end = 7\<rparr>,
      \<lparr>str = ''e'', idx = 8, idx_end = 9\<rparr>]"
    by (simp add: parse_idx_def parse_two_idx_def slice_def)
  ultimately show ?thesis by simp
qed

section \<open>Properties of the writer\<close>

lemma dict_set_fresh:
  "k \<notin> fst ` set d \<Longrightarrow> dict_set d k v = d @ [(k, v)]"
  by (induction d) auto

lemma write_json_backup_ok:
  "fst (write_json_backup E fs root_data save_file) \<longleftrightarrow>
     open_err E (json_path save_file) = None \<and> \<not> isl (json_dumps E (PDict root_data) 4)"
  by (simp add: write_json_backup_def Let_def split: option.splits sum.splits)

lemma dict_to_hdf_result:
  "fst (dict_to_hdf E fs root_data save_file use_json_backup show_detail) =
     (case open_err E save_file of
        Some e \<Rightarrow> Inl e
      | None \<Rightarrow>
          if fst (write_level E [] [] root_data show_detail) = Inr True then Inr True
          else if use_json_backup then
            Inr (open_err E (json_path save_file) = None \<and> \<not> isl (json_dumps E (PDict root_data) 4))
          else Inr True)"
  by (auto simp: dict_to_hdf_def write_json_backup_def Let_def
           split: option.splits sum.splits prod.splits bool.splits)

lemma write_level_leaf:
  "\<not> is_dict v \<Longrightarrow>
   write_level E root fh ((k, v) # rest) show_detail =
     (case create_dataset E root fh k v of
        Inl e \<Rightarrow> (Inr False, root, if show_detail then [FailedDataset k (type_name v) e] else [])
      | Inr root1 \<Rightarrow> write_level E root1 fh rest show_detail)"
  by (cases v) (simp_all split: sum.splits)

text \<open>
  A leaf directly under the level being written that the adapter rejects makes the level
  fail: \<^verbatim>\<open>write_level\<close> returns \<^verbatim>\<open>False\<close> or raises.
\<close>

lemma write_level_rejected:
  "(k, v) \<in> set t \<Longrightarrow> \<not> is_dict v \<Longrightarrow> dataset_err E k v = Some e \<Longrightarrow>
   fst (write_level E root fh t show_detail) \<noteq> Inr True"
proof (induction t arbitrary: root)
  case Nil
  then show ?case by simp
next
  case (Cons kv t)
  obtain k' v' where kv: "kv = (k', v')" by (cases kv)
  show ?case
  proof (cases "is_dict v'")
    case True
    then obtain d where d: "v' = PDict d" by (cases v') auto
    with Cons.prems kv have "(k, v) \<in> set t" by auto
    from Cons.IH[OF this Cons.prems(2,3)]
    have "\<And>root r x y. write_level E root fh t show_detail = (r, x, y) \<Longrightarrow> r \<noteq> Inr True"
      by (metis fst_conv)
    then show ?thesis
      by (auto simp: kv d split: sum.splits prod.splits)
  next
    case False
    show ?thesis
    proof (cases "(k, v) = (k', v')")
      case True
      then show ?thesis using Cons.prems False
        by (simp add: kv write_level_leaf create_dataset_def)
    next
      case False2: False
      with Cons.prems kv have "(k, v) \<in> set t" by auto
      from Cons.IH[OF this Cons.prems(2,3)] show ?thesis
        by (auto simp: kv write_level_leaf False split: sum.splits)
    qed
  qed
qed

subsection \<open>The flag that \<open>dict_to_hdf\<close> returns\<close>

text \<open>
  C9. With \<^verbatim>\<open>use_json_backup\<close> false, an execution of \<^verbatim>\<open>dict_to_hdf\<close> that returns,
  rather than raises, returns \<^verbatim>\<open>True\<close>, for every tree and path, also when the write to
  the container failed. And the flag returned is \<^verbatim>\<open>False\<close> on one path only:
  \<^verbatim>\<open>use_json_backup\<close> is set, the container file was opened, the write to it failed,
  and the JSON fallback failed.
\<close>

theorem dict_to_hdf_false_only_by_json:
  "(\<forall>b. fst (dict_to_hdf E fs root_data save_file False show_detail) = Inr b \<longrightarrow> b)
   \<and> (fst (dict_to_hdf E fs root_data save_file use_json_backup show_detail) = Inr False \<longleftrightarrow>
        use_json_backup \<and> open_err E save_file = None \<and>
        fst (write_level E [] [] root_data show_detail) \<noteq> Inr True \<and>
        \<not> fst (write_json_backup E fs root_data save_file))"
  by (auto simp: dict_to_hdf_result write_json_backup_ok split: option.splits)

theorem dict_to_hdf_false_only_by_json_witness:
  "fst (dict_to_hdf sample_env Map.empty [(''k'', PObj ''object'')] ''d.h5'' False False) = Inr True
   \<and> fst (write_level sample_env [] [] [(''k'', PObj ''object'')] False) = Inr False
   \<and> fst (dict_to_hdf sample_env Map.empty [(''k'', PObj ''object'')] ''d.h5'' True False) = Inr False"
proof -
  have w: "fst (write_level sample_env [] [] [(''k'', PObj ''object'')] False) = Inr False"
    by (simp add: sample_env_def create_dataset_def)
  have j: "\<not> fst (write_json_backup sample_env Map.empty [(''k'', PObj ''object'')] ''d.h5'')"
    by (simp add: sample_env_def write_json_backup_def Let_def)
  have o: "open_err sample_env ''d.h5'' = None" by (simp add: sample_env_def)
  note inst = dict_to_hdf_false_only_by_json
    [where E = sample_env and fs = Map.empty and root_data = "[(''k'', PObj ''object'')]"
       and save_file = "''d.h5''" and show_detail = False and use_json_backup = True]
  have a: "fst (dict_to_hdf sample_env Map.empty [(''k'', PObj ''object'')] ''d.h5'' False False) = Inr True"
    using inst o by (auto simp: dict_to_hdf_result)
  from inst w j o
  have b: "fst (dict_to_hdf sample_env Map.empty [(''k'', PObj ''object'')] ''d.h5'' True False) = Inr False"
    by simp
  from a w b show ?thesis by simp
qed

text \<open>
  C1 does not hold as stated. For a tree with a leaf that neither the adapter nor JSON can
  hold, the write to the container fails, the fallback is attempted and fails in its turn,
  and \<^verbatim>\<open>dict_to_hdf\<close> returns \<^verbatim>\<open>False\<close> (line 199).
\<close>

theorem dict_to_hdf_backup_flag_counterexample:
  "fst (write_level sample_env [] [] [(''k'', PObj ''object'')] False) = Inr False
   \<and> fst (dict_to_hdf sample_env Map.empty [(''k'', PObj ''object'')] ''data.h5'' True False)
       = Inr False"
  by (simp add: dict_to_hdf_result sample_env_def create_dataset_def)

text \<open>
  C1, amended. When the write to the container fails and \<^verbatim>\<open>use_json_backup\<close> is set,
  the flag that \<^verbatim>\<open>dict_to_hdf\<close> returns is the outcome of the fallback: \<^verbatim>\<open>True\<close> when
  the sibling file could be opened and the tree serialised, \<^verbatim>\<open>False\<close> when either
  failed.
\<close>

theorem dict_to_hdf_backup_flag:
  assumes "open_err E save_file = None"
    and "fst (write_level E [] [] root_data show_detail) \<noteq> Inr True"
  shows "fst (dict_to_hdf E fs root_data save_file True show_detail) =
           Inr (open_err E (json_path save_file) = None \<and>
                (\<exists>s. json_dumps E (PDict root_data) 4 = Inr s))"
  using assms by (cases "json_dumps E (PDict root_data) 4") (simp_all add: dict_to_hdf_result)

theorem dict_to_hdf_backup_flag_witness:
  "fst (dict_to_hdf sample_env Map.empty [(''k'', PObj ''object'')] ''data.h5'' True False)
     = Inr False
   \<and> fst (dict_to_hdf sample_env Map.empty [(''k'', PInt 1180591620717411303424)]
        ''data.h5'' True False)
     = Inr True"
proof -
  have o: "open_err sample_env ''data.h5'' = None" by (simp add: sample_env_def)
  have w1: "fst (write_level sample_env [] [] [(''k'', PObj ''object'')] False) \<noteq> Inr True"
    by (simp add: sample_env_def create_dataset_def)
  have w2: "fst (write_level sample_env [] [] [(''k'', PInt 1180591620717411303424)] False)
              \<noteq> Inr True"
    by (simp add: sample_env_def create_dataset_def)
  from dict_to_hdf_backup_flag [OF o w1, of Map.empty]
  have a: "fst (dict_to_hdf sample_env Map.empty [(''k'', PObj ''object'')] ''data.h5'' True False)
     = Inr False"
    by (simp add: sample_env_def)
  from dict_to_hdf_backup_flag [OF o w2, of Map.empty]
  have b: "fst (dict_to_hdf sample_env Map.empty [(''k'', PInt 1180591620717411303424)]
              ''data.h5'' True False)
     = Inr True"
    by (simp add: sample_env_def)
  from a b show ?thesis by simp
qed

text \<open>
  C3 does not hold as stated. The adapter rejects the one leaf of the tree, no fallback
  is asked for, and \<^verbatim>\<open>dict_to_hdf\<close> returns \<^verbatim>\<open>True\<close> (line 201), not \<^verbatim>\<open>False\<close>.
\<close>

theorem dict_to_hdf_rejected_leaf_counterexample:
  "dataset_err sample_env ''k'' (PObj ''object'') \<noteq> None
   \<and> fst (dict_to_hdf sample_env Map.empty [(''k'', PObj ''object'')] ''data.h5'' False False)
       = Inr True"
  by (simp add: dict_to_hdf_result sample_env_def)

text \<open>
  C3, amended. For every tree with a leaf directly under its root that the adapter
  rejects, with \<^verbatim>\<open>use_json_backup\<close> false and a path that can be opened,
  \<^verbatim>\<open>dict_to_hdf\<close> reports the failure on standard output (the last line printed is
  \<^verbatim>\<open>Failed to write HDF file!\<close>) and returns \<^verbatim>\<open>True\<close>; the container file is on disk
  and holds what was written before the write stopped.
\<close>

theorem dict_to_hdf_rejected_leaf:
  assumes "open_err E save_file = None"
    and "(k, v) \<in> set root_data" and "\<not> is_dict v" and "dataset_err E k v = Some e"
  shows "\<exists>fs' out s.
           dict_to_hdf E fs root_data save_file False show_detail = (Inr True, fs', out)
           \<and> out \<noteq> [] \<and> last out = FailedHdf s
           \<and> fs' save_file = Some (HdfFile (fst (snd (write_level E [] [] root_data show_detail))))"
proof -
  from write_level_rejected[OF assms(2,3,4)]
  have "fst (write_level E [] [] root_data show_detail) \<noteq> Inr True" .
  then show ?thesis using assms(1)
    by (auto simp: dict_to_hdf_def Let_def split: prod.splits sum.splits bool.splits)
qed

theorem dict_to_hdf_rejected_leaf_witness:
  "\<exists>fs' out s.
     dict_to_hdf sample_env Map.empty [(''a'', PInt 1), (''k'', PObj ''object''), (''z'', PInt 2)]
        ''data.h5'' False False = (Inr True, fs', out)
     \<and> out \<noteq> [] \<and> last out = FailedHdf s
     \<and> fs' ''data.h5'' = Some (HdfFile [(''a'', HDataset (PInt 1))])"
proof -
  have w: "fst (snd (write_level sample_env [] []
             [(''a'', PInt 1), (''k'', PObj ''object''), (''z'', PInt 2)] False))
           = [(''a'', HDataset (PInt 1))]"
    by (simp add: sample_env_def create_dataset_def sample_plain_def)
  from dict_to_hdf_rejected_leaf
    [of sample_env "''data.h5''" "''k''" "PObj ''object''"
        "[(''a'', PInt 1), (''k'', PObj ''object''), (''z'', PInt 2)]"
        "''Object dtype has no native HDF5 equivalent''" Map.empty False]
  show ?thesis unfolding w by (simp add: sample_env_def)
qed

subsection \<open>One level of the tree\<close>

text \<open>Without \<^verbatim>\<open>show_detail\<close>, \<^verbatim>\<open>write_level\<close> prints nothing, whatever fails.\<close>

lemma write_level_quiet:
  "snd (snd (write_level E root fh t False)) = []"
proof (induction t arbitrary: root fh rule: wf_dict.induct)
  case 1
  then show ?case by simp
next
  case (2 k d rest)
  have d: "b = []" if "write_level E root fh d False = (r, a, b)" for root fh r a b
    using 2(1)[of root fh] that by simp
  have rest: "b = []" if "write_level E root fh rest False = (r, a, b)" for root fh r a b
    using 2(2)[of root fh] that by simp
  show ?case
    by (auto split: sum.splits prod.splits dest: d rest)
qed (auto split: sum.splits)

text \<open>A level whose first part is written without failure goes on with the rest.\<close>

lemma write_level_append:
  "write_level E root fh pre show_detail = (Inr True, root', out) \<Longrightarrow>
   write_level E root fh (pre @ rest) show_detail =
     (case write_level E root' fh rest show_detail of (r, root'', out') \<Rightarrow> (r, root'', out @ out'))"
proof (induction pre arbitrary: root out)
  case Nil
  then show ?case by (auto split: prod.splits)
next
  case (Cons kv pre)
  obtain k v where kv: "kv = (k, v)" by (cases kv)
  show ?case
  proof (cases "is_dict v")
    case True
    then obtain d where d: "v = PDict d" by (cases v) auto
    from Cons.prems obtain root1 b root2 out1 out2 where
      g: "create_group E root fh k = Inr root1" and
      n: "write_level E root1 (sub_handle E fh k) d False = (Inr b, root2, out1)" and
      r: "write_level E root2 fh pre show_detail = (Inr True, root', out2)" and
      o: "out = out1 @ out2"
      by (auto simp: kv d split: sum.splits prod.splits)
    from Cons.IH[OF r] show ?thesis
      by (auto simp: kv d g n o split: prod.splits)
  next
    case False
    from Cons.prems False obtain root1 where
      c: "create_dataset E root fh k v = Inr root1" and
      r: "write_level E root1 fh pre show_detail = (Inr True, root', out)"
      by (auto simp: kv write_level_leaf split: sum.splits)
    from Cons.IH[OF r] show ?thesis
      by (simp add: kv write_level_leaf False c)
  qed
qed

text \<open>
  The first failure of a level at a leaf of that level: the level stops there, nothing
  after the leaf is written, \<^verbatim>\<open>False\<close> is returned, and under \<^verbatim>\<open>show_detail\<close> the
  key, the type of the value and the error are printed.
\<close>

lemma write_level_stops_at_rejected_leaf:
  assumes "write_level E root fh pre show_detail = (Inr True, root', out)"
    and "\<not> is_dict v" and "create_dataset E root' fh k v = Inl e"
  shows "write_level E root fh (pre @ (k, v) # post) show_detail =
           (Inr False, root',
            out @ (if show_detail then [FailedDataset k (type_name v) e] else []))"
  using write_level_append[OF assms(1), of "(k, v) # post"] assms(2,3)
  by (simp add: write_level_leaf)

text \<open>An empty mapping as a value still creates a group, which is empty.\<close>

lemma empty_sub_mapping_is_group:
  assumes "group_err E k = None" and "plain_name E k" and "k \<notin> fst ` set root"
  shows "write_level E root [] [(k, PDict [])] show_detail
           = (Inr True, insort_key fst (k, HGroup []) root, [])"
  using assms by (simp add: create_group_def)

subsection \<open>A failure inside a nested mapping\<close>

text \<open>
  C4, evaluated where it fails. A failure at a leaf of the level being written stops
  that level (\<open>write_level_stops_at_rejected_leaf\<close>); the claim extends this to every
  enclosing level, and there the code differs. The leaf \<^verbatim>\<open>x\<close> inside the sub-mapping
  \<^verbatim>\<open>a\<close> is rejected. The level of \<^verbatim>\<open>a\<close> stops there (\<^verbatim>\<open>y\<close> is not written), but
  the flag of the recursive call is dropped (line 146): the enclosing level goes on and
  writes the sibling \<^verbatim>\<open>b\<close>, \<^verbatim>\<open>write_level\<close> returns \<^verbatim>\<open>True\<close>, and
  \<^verbatim>\<open>dict_to_hdf\<close> prints \<^verbatim>\<open>Wrote file\<close> and returns \<^verbatim>\<open>True\<close>.
\<close>

theorem write_level_nested_failure_goes_on:
  "dataset_err sample_env ''x'' (PObj ''object'') \<noteq> None
   \<and> write_level sample_env [] []
        [(''a'', PDict [(''x'', PObj ''object''), (''y'', PInt 1)]), (''b'', PInt 2)] False
       = (Inr True, [(''a'', HGroup []), (''b'', HDataset (PInt 2))], [])
   \<and> fst (dict_to_hdf sample_env Map.empty
        [(''a'', PDict [(''x'', PObj ''object''), (''y'', PInt 1)]), (''b'', PInt 2)]
        ''data.h5'' False False) = Inr True
   \<and> snd (snd (dict_to_hdf sample_env Map.empty
        [(''a'', PDict [(''x'', PObj ''object''), (''y'', PInt 1)]), (''b'', PInt 2)]
        ''data.h5'' False False)) = [WroteFile]"
  by (simp add: dict_to_hdf_def sample_env_def create_dataset_def create_group_def
        sub_handle_def sample_plain_def less_eq_char_def less_char_def)

text \<open>
  C7, evaluated where it fails. Without \<^verbatim>\<open>show_detail\<close> nothing is printed for a
  leaf (\<open>write_level_quiet\<close>), and with it a rejected leaf directly under the root prints
  its key, the type of its value and the error. The same leaf inside a sub-mapping prints
  nothing: the recursive call does not pass \<^verbatim>\<open>show_detail\<close> on (line 146), and all
  that \<^verbatim>\<open>dict_to_hdf\<close> prints is \<^verbatim>\<open>Wrote file\<close>.
\<close>

theorem write_level_nested_failure_silent:
  "snd (snd (write_level sample_env [] [] [(''x'', PObj ''object'')] True))
     = [FailedDataset ''x'' ''object'' ''Object dtype has no native HDF5 equivalent'']
   \<and> snd (snd (write_level sample_env [] [] [(''a'', PDict [(''x'', PObj ''object'')])] True)) = []
   \<and> snd (snd (dict_to_hdf sample_env Map.empty [(''a'', PDict [(''x'', PObj ''object'')])]
        ''data.h5'' False True)) = [WroteFile]"
  by (simp add: dict_to_hdf_def sample_env_def create_dataset_def create_group_def
        sub_handle_def sample_plain_def)

subsection \<open>The path of the JSON fallback\<close>

text \<open>
  When the write to the container fails with \<^verbatim>\<open>use_json_backup\<close> set, and the
  fallback can be opened and the tree serialised, the file at the save path without its
  last three characters, followed by \<^verbatim>\<open>.json\<close>, holds
  \<^verbatim>\<open>json.dumps(root_data, indent=4)\<close>. For an extension of a dot and two characters, as
  in \<^verbatim>\<open>.h5\<close>, that path is the sibling with the extension replaced.
\<close>

lemma json_backup_written:
  assumes "open_err E save_file = None"
    and "fst (write_level E [] [] root_data show_detail) \<noteq> Inr True"
    and "open_err E (json_path save_file) = None"
    and "json_dumps E (PDict root_data) 4 = Inr s"
  shows "fst (snd (dict_to_hdf E fs root_data save_file True show_detail))
           (take (length save_file - 3) save_file @ ''.json'') = Some (TextFile s)"
  using assms
  by (auto simp: dict_to_hdf_def write_json_backup_def Let_def json_path_def
           split: prod.splits sum.splits bool.splits)

lemma json_path_two_character_extension:
  "json_path (base @ [CHR ''.'', c1, c2]) = base @ ''.json''"
  by (simp add: json_path_def)

text \<open>
  C8, evaluated where it fails. The integer \<^verbatim>\<open>2**70\<close> does not fit the integer types
  of the container, so the write fails, and JSON can hold it, so the fallback is written.
  For the path \<^verbatim>\<open>data.hdf\<close> the sibling with the extension replaced is
  \<^verbatim>\<open>data.json\<close>. Line 191 cuts three characters off the path, whatever its
  extension is: the fallback is written to \<^verbatim>\<open>data..json\<close>, and there is no file at
  \<^verbatim>\<open>data.json\<close>.
\<close>

theorem json_fallback_path_cuts_three_characters:
  "spec_json_sibling ''data.hdf'' = ''data.json''
   \<and> json_path ''data.hdf'' = ''data..json''
   \<and> fst (write_level sample_env [] [] [(''k'', PInt 1180591620717411303424)] False) = Inr False
   \<and> fst (snd (dict_to_hdf sample_env Map.empty [(''k'', PInt 1180591620717411303424)]
        ''data.hdf'' True False)) ''data.json'' = None
   \<and> fst (snd (dict_to_hdf sample_env Map.empty [(''k'', PInt 1180591620717411303424)]
        ''data.hdf'' True False)) ''data..json'' = Some (TextFile ''    ...'')"
  by (simp add: spec_json_sibling_def dict_to_hdf_def write_json_backup_def json_path_def
        sample_env_def create_dataset_def Let_def eval_nat_numeral)

section \<open>Properties of the reader\<close>

text \<open>
  C2 does not hold as stated. \<^verbatim>\<open>h5py.File(filename, 'r')\<close> stands outside the
  \<^verbatim>\<open>try\<close> (line 240): for a path with no file, and for a file that is not a container,
  its exception reaches the caller.
\<close>

theorem hdf_to_dict_missing_file_counterexample:
  "fst (hdf_to_dict sample_env Map.empty ''missing.h5'' True True) = Inl ''Unable to open file''
   \<and> fst (hdf_to_dict sample_env [''notes.h5'' \<mapsto> TextFile ''not a container'']
            ''notes.h5'' True True) = Inl ''Unable to open file''"
  by (simp add: hdf_to_dict_def)

text \<open>
  C2, amended. For every path at which a container can be opened, \<^verbatim>\<open>hdf_to_dict\<close>
  returns and no exception reaches the caller: it returns the dictionary that
  \<^verbatim>\<open>read_level\<close> built and prints nothing, or, when \<^verbatim>\<open>read_level\<close> raised, it prints
  \<^verbatim>\<open>Failed to read HDF file!\<close> with the exception and returns \<^verbatim>\<open>None\<close>.
\<close>

theorem hdf_to_dict_opened:
  assumes "fs filename = Some (HdfFile fh)"
  shows "(\<exists>d. hdf_to_dict E fs filename to_lists decode_strs = (Inr (Some d), [])
              \<and> read_level E to_lists decode_strs fh = Inr d)
         \<or> (\<exists>e. hdf_to_dict E fs filename to_lists decode_strs = (Inr None, [FailedRead e])
              \<and> read_level E to_lists decode_strs fh = Inl e)"
  using assms by (cases "read_level E to_lists decode_strs fh") (simp_all add: hdf_to_dict_def)

theorem hdf_to_dict_opened_witness:
  "hdf_to_dict sample_env [''f.h5'' \<mapsto> HdfFile [(''k'', HDataset (PArray [PBytes ''a'', PInt 2]))]]
     ''f.h5'' True True = (Inr None, [FailedRead ''AttributeError: no attribute decode''])
   \<and> hdf_to_dict sample_env [''f.h5'' \<mapsto> HdfFile [(''k'', HDataset (PBytes ''a''))]]
     ''f.h5'' True True = (Inr (Some [(''k'', PStr ''a'')]), [])"
proof -
  have r1: "read_level sample_env True True [(''k'', HDataset (PArray [PBytes ''a'', PInt 2]))]
              = Inl ''AttributeError: no attribute decode''"
    by (simp add: read_level_def read_dataset_def sample_env_def)
  have r2: "read_level sample_env True True [(''k'', HDataset (PBytes ''a''))]
              = Inr [(''k'', PStr ''a'')]"
    by (simp add: read_level_def read_dataset_def sample_env_def)
  from hdf_to_dict_opened
    [of "[''f.h5'' \<mapsto> HdfFile [(''k'', HDataset (PArray [PBytes ''a'', PInt 2]))]]" "''f.h5''"
        "[(''k'', HDataset (PArray [PBytes ''a'', PInt 2]))]" sample_env True True]
  have a: "hdf_to_dict sample_env [''f.h5'' \<mapsto> HdfFile [(''k'', HDataset (PArray [PBytes ''a'', PInt 2]))]]
     ''f.h5'' True True = (Inr None, [FailedRead ''AttributeError: no attribute decode''])"
    unfolding r1 by simp
  from hdf_to_dict_opened
    [of "[''f.h5'' \<mapsto> HdfFile [(''k'', HDataset (PBytes ''a''))]]" "''f.h5''"
        "[(''k'', HDataset (PBytes ''a''))]" sample_env True True]
  have b: "hdf_to_dict sample_env [''f.h5'' \<mapsto> HdfFile [(''k'', HDataset (PBytes ''a''))]]
     ''f.h5'' True True = (Inr (Some [(''k'', PStr ''a'')]), [])"
    unfolding r2 by simp
  from a b show ?thesis by simp
qed

subsection \<open>The value of one dataset\<close>

text \<open>When the loop of lines 231-232 ends without an exception, every element was a byte
  string and is now the text decoded from it.\<close>

lemma decode_all_text:
  "decode_all E xs = Inr ys \<Longrightarrow>
   list_all2 (\<lambda>x y. \<exists>b s. (x = PBytes b \<or> x = PNpBytes b) \<and> bytes_decode E b = Inr s \<and> y = PStr s)
     xs ys"
proof (induction xs arbitrary: ys)
  case Nil
  then show ?case by simp
next
  case (Cons x xs)
  then show ?case
    by (cases x) (auto split: sum.splits)
qed

text \<open>
  An array is converted under \<^verbatim>\<open>to_lists\<close> only, and its elements are decoded when it
  is converted and the first of them is of the class \<^verbatim>\<open>bytes\<close> itself.
\<close>

lemma read_dataset_array:
  "read_dataset E to_lists decode_strs (PArray xs) =
     (if \<not> to_lists then Inr (PArray xs)
      else if xs \<noteq> [] \<and> is_bytes (hd xs) then
        (case decode_all E xs of Inl e \<Rightarrow> Inl e | Inr ys \<Rightarrow> Inr (PList ys))
      else Inr (PList xs))"
  by (auto simp: read_dataset_def split: sum.splits)

text \<open>
  A \<^verbatim>\<open>list\<close> is converted without \<^verbatim>\<open>to_lists\<close> only, by \<^verbatim>\<open>np.array\<close>, and it is
  the first item of that array that decides on the decoding.
\<close>

lemma read_dataset_list:
  "read_dataset E to_lists decode_strs (PList xs) =
     (if to_lists then Inr (PList xs)
      else
        (case np_array E xs of
           Inl e \<Rightarrow> Inl e
         | Inr ys \<Rightarrow>
             if ys \<noteq> [] \<and> is_bytes (hd ys) then
               (case decode_all E ys of Inl e \<Rightarrow> Inl e | Inr zs \<Rightarrow> Inr (PArray zs))
             else Inr (PArray ys)))"
  by (simp add: read_dataset_def split: sum.splits)

text \<open>
  The items of \<^verbatim>\<open>np.array\<close> of a list of bytes are \<^verbatim>\<open>numpy.bytes_\<close>, for which the
  test of line 230 is false: the converted sequence is not decoded.
\<close>

lemma read_dataset_list_of_bytes:
  "read_dataset sample_env False decode_strs (PList [PBytes ''a'', PBytes ''b''])
     = Inr (PArray [PNpBytes ''a'', PNpBytes ''b''])"
  by (simp add: read_dataset_def sample_env_def)

text \<open>Bytes alone are decoded under \<^verbatim>\<open>decode_strs\<close>; any other value is returned as read.\<close>

lemma read_dataset_bytes:
  "read_dataset E to_lists decode_strs (PBytes b) =
     (if decode_strs then
        (case bytes_decode E b of Inl e \<Rightarrow> Inl e | Inr s \<Rightarrow> Inr (PStr s))
      else Inr (PBytes b))"
  by (simp add: read_dataset_def)

lemma read_dataset_other:
  "read_dataset E to_lists decode_strs (PNpBytes b) = Inr (PNpBytes b)
   \<and> read_dataset E to_lists decode_strs (PStr s) = Inr (PStr s)
   \<and> read_dataset E to_lists decode_strs (PInt i) = Inr (PInt i)
   \<and> read_dataset E to_lists decode_strs (PObj c) = Inr (PObj c)"
  by (simp add: read_dataset_def)

subsection \<open>The datasets of a file\<close>

text \<open>
  In a group whose names differ, \<^verbatim>\<open>read_level\<close> adds each entry to the dictionary as
  a new key.
\<close>

lemma read_level_from_tree:
  "wf_group fh \<Longrightarrow> fst ` set out_data \<inter> fst ` set fh = {} \<Longrightarrow>
   read_level_from E to_lists decode_strs fh out_data =
     (case read_tree E to_lists decode_strs fh of
        Inl e \<Rightarrow> Inl e
      | Inr d \<Rightarrow> Inr (out_data @ d))"
proof (induction fh arbitrary: out_data rule: wf_group.induct)
  case 1
  then show ?case by simp
next
  case (2 k g rest)
  have k: "k \<notin> fst ` set out_data" using 2(4) by auto
  have n: "read_level_from E to_lists decode_strs g [] = read_tree E to_lists decode_strs g"
    using 2(1)[of "[]"] 2(3) by (simp split: sum.splits)
  have r: "read_level_from E to_lists decode_strs rest (out_data @ [(k, x)]) =
     (case read_tree E to_lists decode_strs rest of
        Inl e \<Rightarrow> Inl e | Inr d \<Rightarrow> Inr ((out_data @ [(k, x)]) @ d))" for x
    using 2(2)[of "out_data @ [(k, x)]"] 2(3,4) by auto
  show ?case
    by (simp add: n r dict_set_fresh[OF k] split: sum.splits)
next
  case (3 k v rest)
  have k: "k \<notin> fst ` set out_data" using 3(3) by auto
  have r: "read_level_from E to_lists decode_strs rest (out_data @ [(k, x)]) =
     (case read_tree E to_lists decode_strs rest of
        Inl e \<Rightarrow> Inl e | Inr d \<Rightarrow> Inr ((out_data @ [(k, x)]) @ d))" for x
    using 3(1)[of "out_data @ [(k, x)]"] 3(2,3) by auto
  show ?case
    by (simp add: r dict_set_fresh[OF k] split: sum.splits)
qed

lemma read_level_tree:
  "wf_group fh \<Longrightarrow> read_level E to_lists decode_strs fh = read_tree E to_lists decode_strs fh"
  using read_level_from_tree[of fh "[]" E to_lists decode_strs]
  by (simp add: read_level_def split: sum.splits)

text \<open>
  When the read of a group returns, every dataset of it, at any depth, was read, and its
  value stands in the dictionary under the same keys.
\<close>

lemma read_tree_leaves:
  "read_tree E to_lists decode_strs fh = Inr d \<Longrightarrow> (p, raw) \<in> set (datasets fh) \<Longrightarrow>
   \<exists>v. read_dataset E to_lists decode_strs raw = Inr v \<and> (is_dict v \<or> (p, v) \<in> set (leaves d))"
proof (induction fh arbitrary: d p rule: wf_group.induct)
  case 1
  then show ?case by simp
next
  case (2 k g rest)
  from 2(3) obtain dg dr where
    g: "read_tree E to_lists decode_strs g = Inr dg" and
    r: "read_tree E to_lists decode_strs rest = Inr dr" and
    d: "d = (k, PDict dg) # dr"
    by (auto split: sum.splits)
  from 2(4) consider q where "p = k # q" "(q, raw) \<in> set (datasets g)"
    | "(p, raw) \<in> set (datasets rest)"
    by auto
  then show ?case
  proof cases
    case 1
    from 2(1)[OF g 1(2)] show ?thesis using 1(1) d by force
  next
    case 2
    from "2.IH"(2)[OF r 2] show ?thesis using d by auto
  qed
next
  case (3 k v rest)
  from 3(2) obtain v' dr where
    v: "read_dataset E to_lists decode_strs v = Inr v'" and
    r: "read_tree E to_lists decode_strs rest = Inr dr" and
    d: "d = (k, v') # dr"
    by (auto split: sum.splits)
  from 3(3) consider "p = [k]" "raw = v" | "(p, raw) \<in> set (datasets rest)"
    by auto
  then show ?case
  proof cases
    case 1
    show ?thesis using 1 v d by (cases v') auto
  next
    case 2
    from 3(1)[OF r 2] show ?thesis using d by (cases v') auto
  qed
qed

subsection \<open>Decoding the elements of a sequence\<close>

text \<open>
  C6 does not hold as stated. An array of \<^verbatim>\<open>bytes\<close> objects (for h5py, strings of
  variable length) is read with \<^verbatim>\<open>to_lists\<close> false: no conversion is applied,
  \<^verbatim>\<open>is_list_type\<close> stays false, and the sequence, not empty and with bytes first,
  comes back with its elements not decoded. And an array of byte strings of fixed width
  is read with \<^verbatim>\<open>to_lists\<close> set: it is converted, but its first element is a
  \<^verbatim>\<open>numpy.bytes_\<close>, not of the class \<^verbatim>\<open>bytes\<close> itself, and the elements are not
  decoded either.
\<close>

theorem read_dataset_unconverted_counterexample:
  "hdf_to_dict sample_env [''f.h5'' \<mapsto> HdfFile [(''k'', HDataset (PArray [PBytes ''a'', PBytes ''b'']))]]
     ''f.h5'' False True = (Inr (Some [(''k'', PArray [PBytes ''a'', PBytes ''b''])]), [])
   \<and> hdf_to_dict sample_env [''f.h5'' \<mapsto> HdfFile [(''k'', HDataset (PArray [PNpBytes ''a'', PNpBytes ''b'']))]]
     ''f.h5'' True True = (Inr (Some [(''k'', PList [PNpBytes ''a'', PNpBytes ''b''])]), [])"
  by (simp add: hdf_to_dict_def read_level_def read_dataset_def)

text \<open>
  C6, amended. For every dataset of a file, at any depth, whose value is an array that is
  not empty and has a first element of the class \<^verbatim>\<open>bytes\<close> itself: read with
  \<^verbatim>\<open>to_lists\<close> set, whatever \<^verbatim>\<open>decode_strs\<close> is, \<^verbatim>\<open>hdf_to_dict\<close> returns
  \<^verbatim>\<open>None\<close> when an element cannot be decoded, and a dictionary that it returns holds
  under the keys of the dataset the list of the elements, every one decoded to text; read
  with \<^verbatim>\<open>to_lists\<close> false, a dictionary that it returns holds the array as it was
  read, not decoded. (\<^verbatim>\<open>hdf_to_dict\<close> returns \<^verbatim>\<open>None\<close> also when another dataset of
  the file raises.)
\<close>

theorem hdf_to_dict_decodes_converted:
  assumes "fs filename = Some (HdfFile fh)" and "wf_group fh"
    and "(p, PArray xs) \<in> set (datasets fh)" and "xs \<noteq> []" and "is_bytes (hd xs)"
  shows "(case decode_all E xs of
            Inl e \<Rightarrow> fst (hdf_to_dict E fs filename True decode_strs) = Inr None
          | Inr ys \<Rightarrow>
              (fst (hdf_to_dict E fs filename True decode_strs) = Inr None
               \<or> (\<exists>d. fst (hdf_to_dict E fs filename True decode_strs) = Inr (Some d)
                      \<and> (p, PList ys) \<in> set (leaves d)))
              \<and> list_all2 (\<lambda>x y. \<exists>b s. (x = PBytes b \<or> x = PNpBytes b)
                                      \<and> bytes_decode E b = Inr s \<and> y = PStr s) xs ys)
         \<and> (fst (hdf_to_dict E fs filename False decode_strs) = Inr None
            \<or> (\<exists>d. fst (hdf_to_dict E fs filename False decode_strs) = Inr (Some d)
                   \<and> (p, PArray xs) \<in> set (leaves d)))"
proof -
  have h: "fst (hdf_to_dict E fs filename to_lists decode_strs) =
             (case read_tree E to_lists decode_strs fh of Inl e \<Rightarrow> Inr None | Inr d \<Rightarrow> Inr (Some d))"
    for to_lists
    using assms(1,2) by (simp add: hdf_to_dict_def read_level_tree split: sum.splits)
  have t: "read_dataset E True decode_strs (PArray xs) =
             (case decode_all E xs of Inl e \<Rightarrow> Inl e | Inr ys \<Rightarrow> Inr (PList ys))"
    using assms(4,5) by (simp add: read_dataset_array)
  have f: "read_dataset E False decode_strs (PArray xs) = Inr (PArray xs)"
    by (simp add: read_dataset_array)
  have a: "case decode_all E xs of
            Inl e \<Rightarrow> fst (hdf_to_dict E fs filename True decode_strs) = Inr None
          | Inr ys \<Rightarrow>
              (fst (hdf_to_dict E fs filename True decode_strs) = Inr None
               \<or> (\<exists>d. fst (hdf_to_dict E fs filename True decode_strs) = Inr (Some d)
                      \<and> (p, PList ys) \<in> set (leaves d)))
              \<and> list_all2 (\<lambda>x y. \<exists>b s. (x = PBytes b \<or> x = PNpBytes b)
                                      \<and> bytes_decode E b = Inr s \<and> y = PStr s) xs ys"
  proof (cases "read_tree E True decode_strs fh")
    case (Inl e)
    then show ?thesis
      using decode_all_text[of E xs] by (auto simp: h split: sum.splits)
  next
    case (Inr d)
    from read_tree_leaves[OF Inr assms(3)] t
    show ?thesis
      using decode_all_text[of E xs] by (auto simp: h Inr split: sum.splits)
  qed
  have b: "fst (hdf_to_dict E fs filename False decode_strs) = Inr None
            \<or> (\<exists>d. fst (hdf_to_dict E fs filename False decode_strs) = Inr (Some d)
                   \<and> (p, PArray xs) \<in> set (leaves d))"
  proof (cases "read_tree E False decode_strs fh")
    case (Inl e)
    then show ?thesis by (simp add: h)
  next
    case (Inr d)
    from read_tree_leaves[OF Inr assms(3)] f
    show ?thesis by (auto simp: h Inr)
  qed
  from a b show ?thesis by simp
qed

theorem hdf_to_dict_decodes_converted_witness:
  "hdf_to_dict sample_env
     [''f.h5'' \<mapsto> HdfFile [(''g'', HGroup [(''k'', HDataset (PArray [PBytes ''a'', PBytes ''b'']))])]]
     ''f.h5'' True False
     = (Inr (Some [(''g'', PDict [(''k'', PList [PStr ''a'', PStr ''b''])])]), [])
   \<and> ([''g'', ''k''], PList [PStr ''a'', PStr ''b''])
       \<in> set (leaves [(''g'', PDict [(''k'', PList [PStr ''a'', PStr ''b''])])])
   \<and> hdf_to_dict sample_env
     [''f.h5'' \<mapsto> HdfFile [(''g'', HGroup [(''k'', HDataset (PArray [PBytes ''a'', PBytes ''b'']))])]]
     ''f.h5'' False False
     = (Inr (Some [(''g'', PDict [(''k'', PArray [PBytes ''a'', PBytes ''b''])])]), [])"
proof -
  let ?fh = "[(''g'', HGroup [(''k'', HDataset (PArray [PBytes ''a'', PBytes ''b'']))])]"
  have o: "[''f.h5'' \<mapsto> HdfFile ?fh] ''f.h5'' = Some (HdfFile ?fh)" by simp
  have wf: "wf_group ?fh" by simp
  have m: "([''g'', ''k''], PArray [PBytes ''a'', PBytes ''b'']) \<in> set (datasets ?fh)" by simp
  have n: "[PBytes ''a'', PBytes ''b''] \<noteq> []" by simp
  have b: "is_bytes (hd [PBytes ''a'', PBytes ''b''])" by simp
  from hdf_to_dict_decodes_converted
         [where fs = "[''f.h5'' \<mapsto> HdfFile ?fh]" and filename = "''f.h5''" and fh = ?fh
            and p = "[''g'', ''k'']" and xs = "[PBytes ''a'', PBytes ''b'']"
            and E = sample_env and decode_strs = False, OF o wf m n b]
  show ?thesis
    by (simp add: hdf_to_dict_def read_level_def read_dataset_def sample_env_def)
qed

section \<open>Writing, then reading\<close>

subsection \<open>Entries in the order of their names\<close>

lemma names_insort:
  "fst ` set (insort_key fst x g) = insert (fst x) (fst ` set g)"
  by (simp add: set_insort_key)






subsection \<open>The group of a handle\<close>







subsection \<open>Writing a tree that the adapter can represent\<close>


subsection \<open>The container of the tree, by name\<close>






subsection \<open>The tree, by name\<close>



lemma keys_sorted_into:
  "fst ` set (sorted_into t acc) = fst ` set t \<union> fst ` set acc"
  by (induction t acc rule: sorted_into.induct) (auto simp: names_insort)





text \<open>
  The tree by name holds the leaves of the tree, under the same keys, and its keys stand
  in the order of their names.
\<close>

lemma leaves_Cons:
  "leaves (kv # rest) =
     (case snd kv of
        PDict d \<Rightarrow> map (\<lambda>pv. (fst kv # fst pv, snd pv)) (leaves d)
      | v \<Rightarrow> [([fst kv], v)]) @ leaves rest"
  by (cases kv; cases "snd kv") auto

lemma leaves_insort:
  "set (leaves (insort_key fst kv acc)) = set (leaves [kv]) \<union> set (leaves acc)"
  by (induction acc) (auto simp: leaves_Cons)

lemma leaves_sorted_into:
  "set (leaves (sorted_into t acc)) = set (leaves t) \<union> set (leaves acc)"
proof (induction t arbitrary: acc rule: wf_dict.induct)
  case 1
  then show ?case by simp
next
  case (2 k d rest)
  have d: "set (leaves (sorted_into d [])) = set (leaves d)"
    using 2(1)[of "[]"] by simp
  show ?case
    using 2(2)[of "insort_key fst (k, PDict (sorted_into d [])) acc"]
    by (auto simp: leaves_insort d)
qed (auto simp: leaves_insort)

lemma leaves_by_name: "set (leaves (by_name t)) = set (leaves t)"
  by (simp add: by_name_def leaves_sorted_into)

lemma sorted_sorted_into:
  "sorted (map fst acc) \<Longrightarrow> sorted (map fst (sorted_into t acc))"
  by (induction t acc rule: sorted_into.induct) (auto simp: sorted_insort_key)

lemma sorted_by_name: "sorted (map fst (by_name t))"
  by (simp add: by_name_def sorted_sorted_into)

subsection \<open>Reading the container of a tree\<close>



text \<open>
  The empty mapping is written as a container without entries, and read back as the
  empty mapping.
\<close>

lemma empty_mapping_round_trip:
  assumes "open_err E save_file = None"
  shows "dict_to_hdf E fs [] save_file use_json_backup show_detail
           = (Inr True, fs(save_file \<mapsto> HdfFile []), [WroteFile])
         \<and> hdf_to_dict E (fs(save_file \<mapsto> HdfFile [])) save_file to_lists decode_strs
           = (Inr (Some []), [])"
  using assms by (simp add: dict_to_hdf_def hdf_to_dict_def read_level_def)

subsection \<open>The round trip\<close>




end
